theory Spec2Isabelle
  imports Main "HOL-Library.Word"
begin

section \<open>Typed arrays and the linear memory\<close>

text \<open>
  The linear memory \<open>wasmByteMemory\<close> and every region copy are JavaScript
  \<open>Uint8Array\<close>s: a fixed number of bytes. Reading an index that is not in the
  array gives \<open>undefined\<close> (here \<open>None\<close>); writing one is ignored; a written
  \<open>undefined\<close> is stored as 0.
\<close>

type_synonym u8 = "8 word"
type_synonym Uint8Array = "u8 list"

definition new_Uint8Array :: "nat \<Rightarrow> Uint8Array" where
  "new_Uint8Array n = replicate n 0"

definition js_get :: "Uint8Array \<Rightarrow> nat \<Rightarrow> u8 option" where
  "js_get a i = (if i < length a then Some (a ! i) else None)"

definition to_u8 :: "u8 option \<Rightarrow> u8" where
  "to_u8 v = (case v of None \<Rightarrow> 0 | Some b \<Rightarrow> b)"

definition js_set :: "Uint8Array \<Rightarrow> nat \<Rightarrow> u8 option \<Rightarrow> Uint8Array" where
  "js_set a i v = (if i < length a then a[i := to_u8 v] else a)"

text \<open>Truthiness of an array element: \<open>undefined\<close> and 0 are falsy.\<close>

definition truthy :: "u8 option \<Rightarrow> bool" where
  "truthy v = (case v of None \<Rightarrow> False | Some b \<Rightarrow> b \<noteq> 0)"

text \<open>\<open>for (let i = i0; i < n; i++) body\<close>, the body acting on the state \<open>s\<close>.\<close>

function for_loop :: "nat \<Rightarrow> nat \<Rightarrow> (nat \<Rightarrow> 's \<Rightarrow> 's) \<Rightarrow> 's \<Rightarrow> 's" where
  "for_loop i n body s = (if i < n then for_loop (Suc i) n body (body i s) else s)"
  by pat_completeness auto
termination
  by (relation "measure (\<lambda>(i, n, body, s). n - i)") auto

declare for_loop.simps [simp del]

section \<open>Memory constants\<close>

definition CARTRIDGE_RAM :: nat where
  "CARTRIDGE_RAM = 0x008400"

definition CARTRIDGE_ROM :: nat where
  "CARTRIDGE_ROM = 0x073800"

definition WASMBOY_INTERNAL_STATE_LOCATION :: nat where
  "WASMBOY_INTERNAL_STATE_LOCATION = 0x000000"

definition WASMBOY_INTERNAL_STATE_SIZE :: nat where
  "WASMBOY_INTERNAL_STATE_SIZE = 0x000400"

definition GAMEBOY_MEMORY_LOCATION :: nat where
  "GAMEBOY_MEMORY_LOCATION = 0x000400"

definition GAMEBOY_MEMORY_SIZE :: nat where
  "GAMEBOY_MEMORY_SIZE = 0x008000"

section \<open>Cartridge header\<close>

definition headerLength :: nat where
  "headerLength = 0x014F - 0x0134"

text \<open>The loop of \<open>getCartridgeHeader\<close>: \<open>for (let i = 0; i <= headerLength; i++)\<close>.\<close>

function getCartridgeHeader_loop :: "Uint8Array \<Rightarrow> nat \<Rightarrow> Uint8Array \<Rightarrow> Uint8Array" where
  "getCartridgeHeader_loop wasmByteMemory i headerArray =
     (if i \<le> headerLength
      then getCartridgeHeader_loop wasmByteMemory (Suc i)
             (js_set headerArray i (js_get wasmByteMemory (CARTRIDGE_ROM + 0x0134 + i)))
      else headerArray)"
  by pat_completeness auto
termination
  by (relation "measure (\<lambda>(m, i, h). Suc headerLength - i)") auto

declare getCartridgeHeader_loop.simps [simp del]

text \<open>\<open>None\<close> is the \<open>false\<close> returned for an unbound memory.\<close>

definition getCartridgeHeader :: "Uint8Array option \<Rightarrow> Uint8Array option" where
  "getCartridgeHeader wasmByteMemory =
     (case wasmByteMemory of
        None \<Rightarrow> None
      | Some m \<Rightarrow> Some (getCartridgeHeader_loop m 0 (new_Uint8Array headerLength)))"

section \<open>Cartridge RAM\<close>

text \<open>
  The chain of comparisons on \<open>cartridgeType\<close> in \<open>getCartridgeRam\<close>; \<open>None\<close>
  is the case where the function returns \<open>false\<close> (type 0, or \<open>ramSize\<close> left
  \<open>undefined\<close>). Every comparison with an \<open>undefined\<close> type byte is false.
\<close>

definition resolveRamSize :: "u8 option \<Rightarrow> nat option" where
  "resolveRamSize cartridgeType =
     (case cartridgeType of
        None \<Rightarrow> None
      | Some t \<Rightarrow>
          if t = 0x00 then None
          else if t \<ge> 0x01 \<and> t \<le> 0x03 then Some 0x8000
          else if t \<ge> 0x05 \<and> t \<le> 0x06 then Some 0x800
          else if t \<ge> 0x0F \<and> t \<le> 0x13 then Some 0x8000
          else if t \<ge> 0x19 \<and> t \<le> 0x1E then Some 0x20000
          else None)"

definition getCartridgeRam :: "Uint8Array option \<Rightarrow> Uint8Array option" where
  "getCartridgeRam wasmByteMemory =
     (case wasmByteMemory of
        None \<Rightarrow> None
      | Some m \<Rightarrow>
          (case resolveRamSize (js_get m (CARTRIDGE_ROM + 0x0147)) of
             None \<Rightarrow> None
           | Some ramSize \<Rightarrow>
               Some (for_loop 0 ramSize
                       (\<lambda>i cartridgeRam. js_set cartridgeRam i (js_get m (CARTRIDGE_RAM + i)))
                       (new_Uint8Array ramSize))))"

section \<open>Save states\<close>

text \<open>
  The nested object \<open>wasmBoyMemory\<close> of a save state. Its \<open>cartridgeRam\<close> is
  \<open>false\<close> (here \<open>None\<close>) when \<open>getCartridgeRam\<close> returned \<open>false\<close>.
\<close>

record wasmBoyMemory =
  wasmBoyInternalState :: Uint8Array
  gameBoyMemory :: Uint8Array
  cartridgeRam :: "Uint8Array option"

text \<open>
  \<open>Object.assign({}, WASMBOY_SAVE_STATE_SCHEMA)\<close> copies the top-level properties
  only: the new save state's \<open>wasmBoyMemory\<close> property refers to the one nested
  object of the schema. That object is the only one the module ever shares, so the store
  has a single cell: a reference is either \<open>SchemaMemory\<close>, the schema's nested
  object, or \<open>OwnMemory v\<close>, an object of its own with contents \<open>v\<close> (what
  \<open>JSON.parse\<close> and the structured clone of the key-value store produce).
\<close>

datatype wasmBoyMemory_ref = SchemaMemory | OwnMemory wasmBoyMemory

record saveState =
  wasmBoyMemory :: wasmBoyMemory_ref
  date :: "nat option"
  name :: "string option"
  isAuto :: "bool option"

text \<open>The contents of the schema's nested object when the module is loaded.\<close>

definition WASMBOY_SAVE_STATE_SCHEMA :: wasmBoyMemory where
  "WASMBOY_SAVE_STATE_SCHEMA =
     \<lparr>wasmBoyInternalState = [], gameBoyMemory = [], cartridgeRam = Some []\<rparr>"

definition deref :: "wasmBoyMemory \<Rightarrow> wasmBoyMemory_ref \<Rightarrow> wasmBoyMemory" where
  "deref schema r = (case r of SchemaMemory \<Rightarrow> schema | OwnMemory v \<Rightarrow> v)"

datatype error =
    TypeError
  | ErrorParsingHeader
  | ErrorParsingRamOrHeader
  | NoCartridgeObjectOrSaveStates
  | StoreError

text \<open>
  \<open>getSaveState\<close> returns the new save state and the new contents of the schema's
  nested object, which it assigns to. \<open>now\<close> is \<open>Date.now()\<close>. Indexing an
  unbound memory throws.
\<close>

definition getSaveState ::
  "nat \<Rightarrow> Uint8Array option \<Rightarrow> error + (saveState \<times> wasmBoyMemory)" where
  "getSaveState now wasmByteMemory =
     (let cartridgeRam = getCartridgeRam wasmByteMemory in
      case wasmByteMemory of
        None \<Rightarrow> Inl TypeError
      | Some m \<Rightarrow>
          let wasmBoyInternalState =
                for_loop 0 WASMBOY_INTERNAL_STATE_SIZE
                  (\<lambda>i a. js_set a i (js_get m (i + WASMBOY_INTERNAL_STATE_LOCATION)))
                  (new_Uint8Array WASMBOY_INTERNAL_STATE_SIZE);
              gameBoyMemory =
                for_loop 0 GAMEBOY_MEMORY_SIZE
                  (\<lambda>i a. js_set a i (js_get m (i + GAMEBOY_MEMORY_LOCATION)))
                  (new_Uint8Array GAMEBOY_MEMORY_SIZE)
          in Inr (\<lparr>wasmBoyMemory = SchemaMemory, date = Some now, name = None, isAuto = None\<rparr>,
                  \<lparr>wasmBoyInternalState = wasmBoyInternalState,
                   gameBoyMemory = gameBoyMemory,
                   cartridgeRam = cartridgeRam\<rparr>))"

text \<open>
  \<open>loadSaveState\<close> reads the save state through the store and returns \<open>true\<close>
  with the memory it has written. The third loop runs to the \<open>length\<close> of the stored
  cartridge RAM, which is \<open>undefined\<close> for \<open>false\<close>: no iteration.
\<close>

definition loadSaveState ::
  "wasmBoyMemory \<Rightarrow> Uint8Array \<Rightarrow> saveState \<Rightarrow> bool \<times> Uint8Array" where
  "loadSaveState schema wasmByteMemory saveState =
     (let stored = deref schema (wasmBoyMemory saveState);
          m1 = for_loop 0 WASMBOY_INTERNAL_STATE_SIZE
                 (\<lambda>i m. js_set m (i + WASMBOY_INTERNAL_STATE_LOCATION)
                            (js_get (wasmBoyInternalState stored) i))
                 wasmByteMemory;
          m2 = for_loop 0 GAMEBOY_MEMORY_SIZE
                 (\<lambda>i m. js_set m (i + GAMEBOY_MEMORY_LOCATION)
                            (js_get (gameBoyMemory stored) i))
                 m1;
          m3 = (case cartridgeRam stored of
                  None \<Rightarrow> m2
                | Some ram \<Rightarrow>
                    for_loop 0 (length ram)
                      (\<lambda>i m. js_set m (i + CARTRIDGE_RAM) (js_get ram i))
                      m2)
      in (True, m3))"

section \<open>The memory service\<close>

text \<open>
  The object kept per cartridge in the key-value store. \<open>None\<close> is a missing (or
  falsy) property.
\<close>

record cartridgeObject =
  object_cartridgeRam :: "Uint8Array option"
  saveStates :: "saveState list option"

text \<open>
  The value \<open>JSON.parse\<close> yields for the \<open>WASMBOY_UNLOAD_STORAGE\<close> entry of
  \<open>localStorage\<close>.
\<close>

record unloadStorageObject =
  unload_header :: "u8 list"
  unload_cartridgeRam :: "u8 list"
  unload_saveState :: "saveState option"

text \<open>
  The exports of the WebAssembly instance that the service calls. They belong to the
  CPU core and are parameters here: each acts on the linear memory.
\<close>

record wasmInstance =
  exports_initialize :: "Uint8Array \<Rightarrow> Uint8Array"
  exports_saveState :: "Uint8Array \<Rightarrow> Uint8Array"
  exports_loadState :: "Uint8Array \<Rightarrow> Uint8Array"

text \<open>
  The key-value collaborator \<open>idbKeyval\<close> (module \<open>./idb\<close>) is a parameter: a
  store of type \<open>'db\<close> with a \<open>get\<close> and a \<open>set\<close> that may each be rejected. The
  key is the header the service passes, \<open>None\<close> when that is \<open>false\<close>.
\<close>

record 'db idbKeyval =
  idb_get :: "'db \<Rightarrow> Uint8Array option \<Rightarrow> error + cartridgeObject option"
  idb_set :: "'db \<Rightarrow> Uint8Array option \<Rightarrow> cartridgeObject \<Rightarrow> error + 'db"

text \<open>
  Everything the service's methods read and write: the fields of the service object,
  the schema's nested object, the \<open>localStorage\<close> entry and the key-value store.
\<close>

record 'db world =
  wasmInstance :: "wasmInstance option"
  wasmByteMemory :: "Uint8Array option"
  loadedCartridgeMemoryState_ROM :: bool
  loadedCartridgeMemoryState_RAM :: bool
  schema_wasmBoyMemory :: wasmBoyMemory
  localStorage :: "unloadStorageObject option"
  idb :: 'db

text \<open>How a promise settles. A promise settles once: the first call wins.\<close>

datatype promise = Resolved | Rejected error

definition settle :: "promise option \<Rightarrow> promise \<Rightarrow> promise" where
  "settle early later = (case early of None \<Rightarrow> later | Some p \<Rightarrow> p)"

text \<open>
  The store keeps a structured clone of what it is given: a save state that refers to
  the schema's nested object is stored with a copy of that object's contents.
\<close>

definition structuredClone :: "wasmBoyMemory \<Rightarrow> cartridgeObject \<Rightarrow> cartridgeObject" where
  "structuredClone schema cartridgeObject =
     cartridgeObject\<lparr>saveStates :=
       map_option (map (\<lambda>s. s\<lparr>wasmBoyMemory := OwnMemory (deref schema (wasmBoyMemory s))\<rparr>))
         (saveStates cartridgeObject)\<rparr>"

definition loadCartridgeRom :: "'db world \<Rightarrow> Uint8Array \<Rightarrow> error option \<times> 'db world" where
  "loadCartridgeRom this gameBytes =
     (case wasmByteMemory this of
        None \<Rightarrow>
          if list_ex (\<lambda>b. b \<noteq> 0) gameBytes then (Some TypeError, this)
          else (case wasmInstance this of
                  None \<Rightarrow> (Some TypeError, this)
                | Some w \<Rightarrow> (None, this\<lparr>loadedCartridgeMemoryState_ROM := True\<rparr>))
      | Some m \<Rightarrow>
          let m1 = for_loop 0 (length gameBytes)
                     (\<lambda>i m. if truthy (js_get gameBytes i)
                             then js_set m (CARTRIDGE_ROM + i) (js_get gameBytes i)
                             else m)
                     m
          in (case wasmInstance this of
                None \<Rightarrow> (Some TypeError, this\<lparr>wasmByteMemory := Some m1\<rparr>)
              | Some w \<Rightarrow>
                  (None, this\<lparr>wasmByteMemory := Some (exports_initialize w m1),
                              loadedCartridgeMemoryState_ROM := True\<rparr>)))"

text \<open>
  \<open>saveCartridgeRam\<close>: after the \<open>reject\<close> for an unparsed header or RAM the
  function goes on to the store, so the store may change although the promise is rejected.
\<close>

definition saveCartridgeRam ::
  "'db idbKeyval \<Rightarrow> 'db world \<Rightarrow> Uint8Array option \<Rightarrow> Uint8Array option \<Rightarrow> promise \<times> 'db world" where
  "saveCartridgeRam kv this passedHeader passedCartridgeRam =
     (let (header, cartridgeRam) =
            (if passedHeader \<noteq> None \<and> passedCartridgeRam \<noteq> None
             then (passedHeader, passedCartridgeRam)
             else (getCartridgeHeader (wasmByteMemory this), getCartridgeRam (wasmByteMemory this)));
          early = (if header = None \<or> cartridgeRam = None
                   then Some (Rejected ErrorParsingRamOrHeader) else None)
      in case idb_get kv (idb this) header of
           Inl e \<Rightarrow> (settle early (Rejected e), this)
         | Inr found \<Rightarrow>
             let cartridgeObject =
                   (case found of
                      None \<Rightarrow> \<lparr>object_cartridgeRam = None, saveStates = None\<rparr>
                    | Some c \<Rightarrow> c);
                 cartridgeObject = cartridgeObject\<lparr>object_cartridgeRam := cartridgeRam\<rparr>
             in (case idb_set kv (idb this) header
                        (structuredClone (schema_wasmBoyMemory this) cartridgeObject) of
                   Inl e \<Rightarrow> (settle early (Rejected e), this)
                 | Inr db \<Rightarrow> (settle early Resolved, this\<lparr>idb := db\<rparr>)))"

definition saveState ::
  "'db idbKeyval \<Rightarrow> nat \<Rightarrow> 'db world \<Rightarrow> Uint8Array option \<Rightarrow> saveState option \<Rightarrow> promise \<times> 'db world" where
  "saveState kv now this passedHeader passedSaveState =
     (case wasmInstance this of
        None \<Rightarrow> (Rejected TypeError, this)
      | Some w \<Rightarrow>
          let this = this\<lparr>wasmByteMemory := map_option (exports_saveState w) (wasmByteMemory this)\<rparr>;
              chosen =
                (case (passedHeader, passedSaveState) of
                   (Some h, Some s) \<Rightarrow> Inr (s, Some h, schema_wasmBoyMemory this)
                 | _ \<Rightarrow>
                     (case getSaveState now (wasmByteMemory this) of
                        Inl e \<Rightarrow> Inl e
                      | Inr (s, schema) \<Rightarrow> Inr (s, getCartridgeHeader (wasmByteMemory this), schema)))
          in case chosen of
               Inl e \<Rightarrow> (Rejected e, this)
             | Inr (state, header, schema) \<Rightarrow>
                 let this = this\<lparr>schema_wasmBoyMemory := schema\<rparr>;
                     early = (if header = None then Some (Rejected ErrorParsingHeader) else None)
                 in (case idb_get kv (idb this) header of
                       Inl e \<Rightarrow> (settle early (Rejected e), this)
                     | Inr found \<Rightarrow>
                         let cartridgeObject =
                               (case found of
                                  None \<Rightarrow> \<lparr>object_cartridgeRam = None, saveStates = None\<rparr>
                                | Some c \<Rightarrow> c);
                             states =
                               (case saveStates cartridgeObject of None \<Rightarrow> [] | Some ss \<Rightarrow> ss);
                             cartridgeObject =
                               cartridgeObject\<lparr>saveStates := Some (states @ [state])\<rparr>
                         in (case idb_set kv (idb this) header
                                    (structuredClone (schema_wasmBoyMemory this) cartridgeObject) of
                               Inl e \<Rightarrow> (settle early (Rejected e), this)
                             | Inr db \<Rightarrow> (settle early Resolved, this\<lparr>idb := db\<rparr>))))"

text \<open>
  The default of \<open>loadState\<close>:
  \<open>for (let i = length - 1; i >= 0; i--) if (!saveStates[i].isAuto) { saveStateIndex = i; i = -1; }\<close>.
  Reading \<open>isAuto\<close> of a missing entry would throw.
\<close>

function defaultSaveStateIndex_loop :: "saveState list \<Rightarrow> int \<Rightarrow> int \<Rightarrow> error + int" where
  "defaultSaveStateIndex_loop states saveStateIndex i =
     (if i \<ge> 0 then
        (if nat i < length states then
           (if isAuto (states ! nat i) \<noteq> Some True
            then defaultSaveStateIndex_loop states i (-1 - 1)
            else defaultSaveStateIndex_loop states saveStateIndex (i - 1))
         else Inl TypeError)
      else Inr saveStateIndex)"
  by pat_completeness auto
termination
  by (relation "measure (\<lambda>(states, saveStateIndex, i). nat (i + 1))") auto

declare defaultSaveStateIndex_loop.simps [simp del]

text \<open>
  \<open>if (!saveStateIndex)\<close> holds for an omitted index (\<open>None\<close>) and for the index 0.
\<close>

definition resolveSaveStateIndex :: "saveState list \<Rightarrow> int option \<Rightarrow> error + int" where
  "resolveSaveStateIndex states saveStateIndex =
     (case saveStateIndex of
        None \<Rightarrow>
          defaultSaveStateIndex_loop states (int (length states) - 1) (int (length states) - 1)
      | Some k \<Rightarrow>
          if k = 0
          then defaultSaveStateIndex_loop states (int (length states) - 1) (int (length states) - 1)
          else Inr k)"

text \<open>\<open>saveStates[saveStateIndex]\<close>: \<open>undefined\<close> outside the array.\<close>

definition saveStates_at :: "saveState list \<Rightarrow> int \<Rightarrow> saveState option" where
  "saveStates_at states k = (if 0 \<le> k \<and> nat k < length states then Some (states ! nat k) else None)"

definition loadState ::
  "'db idbKeyval \<Rightarrow> 'db world \<Rightarrow> int option \<Rightarrow> promise \<times> 'db world" where
  "loadState kv this saveStateIndex =
     (let header = getCartridgeHeader (wasmByteMemory this);
          early = (if header = None then Some (Rejected ErrorParsingHeader) else None)
      in case idb_get kv (idb this) header of
           Inl e \<Rightarrow> (settle early (Rejected e), this)
         | Inr None \<Rightarrow> (settle early (Rejected NoCartridgeObjectOrSaveStates), this)
         | Inr (Some cartridgeObject) \<Rightarrow>
             (case saveStates cartridgeObject of
                None \<Rightarrow> (settle early (Rejected NoCartridgeObjectOrSaveStates), this)
              | Some states \<Rightarrow>
                  (case resolveSaveStateIndex states saveStateIndex of
                     Inl e \<Rightarrow> (settle early (Rejected e), this)
                   | Inr k \<Rightarrow>
                       (case (saveStates_at states k, wasmByteMemory this) of
                          (Some s, Some m) \<Rightarrow>
                            let this = this\<lparr>wasmByteMemory :=
                                         Some (snd (loadSaveState (schema_wasmBoyMemory this) m s))\<rparr>
                            in (case wasmInstance this of
                                  None \<Rightarrow> (settle early (Rejected TypeError), this)
                                | Some w \<Rightarrow>
                                    (settle early Resolved,
                                     this\<lparr>wasmByteMemory :=
                                       map_option (exports_loadState w) (wasmByteMemory this)\<rparr>))
                        | _ \<Rightarrow> (settle early (Rejected TypeError), this)))))"

text \<open>
  The snapshot's typed arrays are rebuilt with \<open>new Uint8Array\<close>, which turns a
  \<open>false\<close> cartridge RAM into an empty array. The parsed save state is an object of
  its own.
\<close>

definition retype :: "wasmBoyMemory \<Rightarrow> wasmBoyMemory" where
  "retype v = v\<lparr>cartridgeRam := Some (case cartridgeRam v of None \<Rightarrow> [] | Some r \<Rightarrow> r)\<rparr>"

text \<open>
  \<open>initialize\<close>, without the registration of the \<open>beforeunload\<close> listener. The
  promise is how the replay chain settles (the method itself returns nothing on that
  path).
\<close>

definition initialize ::
  "'db idbKeyval \<Rightarrow> nat \<Rightarrow> 'db world \<Rightarrow> wasmInstance option \<Rightarrow> Uint8Array option \<Rightarrow>
     promise \<times> 'db world" where
  "initialize kv now this instance memory =
     (let this = this\<lparr>wasmInstance := instance, wasmByteMemory := memory\<rparr> in
      case localStorage this of
        None \<Rightarrow> (Resolved, this)
      | Some unloadStorageObject \<Rightarrow>
          let this = this\<lparr>localStorage := None\<rparr>;
              header = Some (unload_header unloadStorageObject);
              cartridgeRam = Some (unload_cartridgeRam unloadStorageObject);
              state =
                map_option
                  (\<lambda>s. s\<lparr>wasmBoyMemory :=
                          OwnMemory (retype (deref (schema_wasmBoyMemory this) (wasmBoyMemory s)))\<rparr>)
                  (unload_saveState unloadStorageObject)
          in (case saveCartridgeRam kv this header cartridgeRam of
                (Rejected e, this) \<Rightarrow> (Rejected e, this)
              | (Resolved, this) \<Rightarrow> saveState kv now this header state))"

section \<open>Collaborators for the examples\<close>

text \<open>A store that keeps what it is given, and a store that is unavailable.\<close>

definition map_store :: "(Uint8Array option \<Rightarrow> cartridgeObject option) idbKeyval" where
  "map_store = \<lparr>idb_get = (\<lambda>db key. Inr (db key)),
                idb_set = (\<lambda>db key v. Inr (db(key := Some v)))\<rparr>"

definition unavailable_store :: "(Uint8Array option \<Rightarrow> cartridgeObject option) idbKeyval" where
  "unavailable_store = \<lparr>idb_get = (\<lambda>db key. Inl StoreError),
                        idb_set = (\<lambda>db key v. Inl StoreError)\<rparr>"

text \<open>An instance whose exports leave the linear memory as it is.\<close>

definition idle_instance :: wasmInstance where
  "idle_instance = \<lparr>exports_initialize = (\<lambda>m. m), exports_saveState = (\<lambda>m. m),
                    exports_loadState = (\<lambda>m. m)\<rparr>"

section \<open>Inputs for the examples\<close>

text \<open>Two linear memories of eight 64 KiB pages: all bytes 0, all bytes 0xFF.\<close>

definition blank_memory :: Uint8Array where
  "blank_memory = replicate 0x80000 0"

definition filled_memory :: Uint8Array where
  "filled_memory = replicate 0x80000 0xFF"

text \<open>A stored save state whose internal state has 2 bytes instead of 0x400.\<close>

definition short_state :: saveState where
  "short_state =
     \<lparr>wasmBoyMemory =
        OwnMemory \<lparr>wasmBoyInternalState = [1, 2], gameBoyMemory = [], cartridgeRam = None\<rparr>,
      date = Some 0, name = None, isAuto = None\<rparr>"

text \<open>A stored save state whose Game Boy memory has 40000 bytes instead of 32768.\<close>

definition oversized_state :: saveState where
  "oversized_state =
     \<lparr>wasmBoyMemory =
        OwnMemory \<lparr>wasmBoyInternalState = replicate 0x400 0,
                   gameBoyMemory = replicate 40000 0xAA,
                   cartridgeRam = None\<rparr>,
      date = Some 0, name = None, isAuto = None\<rparr>"

text \<open>A stored save state whose regions have the declared sizes.\<close>

definition sized_state :: saveState where
  "sized_state =
     \<lparr>wasmBoyMemory =
        OwnMemory \<lparr>wasmBoyInternalState = replicate 0x400 0,
                   gameBoyMemory = replicate 0x8000 0xAA,
                   cartridgeRam = None\<rparr>,
      date = Some 0, name = None, isAuto = None\<rparr>"

text \<open>
  A service bound to the idle instance and the memory \<open>m\<close>, nothing pending in
  \<open>localStorage\<close>, with the store \<open>db\<close>.
\<close>

definition bound_world ::
  "Uint8Array \<Rightarrow> (Uint8Array option \<Rightarrow> cartridgeObject option) \<Rightarrow>
     (Uint8Array option \<Rightarrow> cartridgeObject option) world" where
  "bound_world m db =
     \<lparr>wasmInstance = Some idle_instance, wasmByteMemory = Some m,
      loadedCartridgeMemoryState_ROM = False, loadedCartridgeMemoryState_RAM = False,
      schema_wasmBoyMemory = WASMBOY_SAVE_STATE_SCHEMA, localStorage = None, idb = db\<rparr>"

text \<open>
  A stored save state made at time \<open>t\<close> with the flag \<open>a\<close>, its regions filled
  with the byte \<open>t\<close>.
\<close>

definition stored_state :: "nat \<Rightarrow> bool option \<Rightarrow> saveState" where
  "stored_state t a =
     \<lparr>wasmBoyMemory =
        OwnMemory \<lparr>wasmBoyInternalState = replicate 0x400 (of_nat t),
                   gameBoyMemory = replicate 0x8000 (of_nat t),
                   cartridgeRam = None\<rparr>,
      date = Some t, name = None, isAuto = a\<rparr>"

text \<open>A store that holds the save states \<open>states\<close> under every key.\<close>

definition store_of :: "saveState list \<Rightarrow> Uint8Array option \<Rightarrow> cartridgeObject option" where
  "store_of states key = Some \<lparr>object_cartridgeRam = None, saveStates = Some states\<rparr>"

text \<open>
  The service as its constructor leaves it, with the \<open>localStorage\<close> entry
  \<open>entry\<close> and the store \<open>db\<close>.
\<close>

definition constructed_world ::
  "unloadStorageObject option \<Rightarrow> (Uint8Array option \<Rightarrow> cartridgeObject option) \<Rightarrow>
     (Uint8Array option \<Rightarrow> cartridgeObject option) world" where
  "constructed_world entry db =
     \<lparr>wasmInstance = None, wasmByteMemory = None,
      loadedCartridgeMemoryState_ROM = False, loadedCartridgeMemoryState_RAM = False,
      schema_wasmBoyMemory = WASMBOY_SAVE_STATE_SCHEMA, localStorage = entry, idb = db\<rparr>"

text \<open>A snapshot left by a previous session: header, cartridge RAM and an automatic save state.\<close>

definition snapshot_state :: saveState where
  "snapshot_state =
     \<lparr>wasmBoyMemory =
        OwnMemory \<lparr>wasmBoyInternalState = replicate 0x400 5,
                   gameBoyMemory = replicate 0x8000 5,
                   cartridgeRam = Some [1, 2, 3]\<rparr>,
      date = Some 5, name = None, isAuto = Some True\<rparr>"

definition snapshot :: unloadStorageObject where
  "snapshot =
     \<lparr>unload_header = [0x50, 0x4F], unload_cartridgeRam = [1, 2, 3],
      unload_saveState = Some snapshot_state\<rparr>"

section \<open>Loops as list operations\<close>

lemma for_loop_fold: "for_loop i n body s = fold body [i..<n] s"
proof (induction i n body s rule: for_loop.induct)
  case (1 i n body s)
  show ?case
  proof (cases "i < n")
    case True
    with 1 show ?thesis
      by (subst for_loop.simps) (simp add: upt_conv_Cons)
  next
    case False
    then show ?thesis
      by (subst for_loop.simps) simp
  qed
qed

lemma length_js_set [simp]: "length (js_set a i v) = length a"
  by (simp add: js_set_def)

lemma nth_js_set:
  "j < length a \<Longrightarrow> js_set a i v ! j = (if j = i then to_u8 v else a ! j)"
  by (simp add: js_set_def)

lemma length_fold_js_set [simp]:
  "length (fold (\<lambda>i a. js_set a (f i) (g i)) ks a) = length a"
  by (induction ks arbitrary: a) simp_all

text \<open>A run of writes at \<open>d + 0\<close>, ..., \<open>d + (n - 1)\<close>, read back at any index.\<close>

lemma nth_fold_js_set:
  "j < length a \<Longrightarrow>
   fold (\<lambda>i a. js_set a (d + i) (g i)) [0..<n] a ! j =
     (if d \<le> j \<and> j < d + n then to_u8 (g (j - d)) else a ! j)"
proof (induction n)
  case 0
  then show ?case by auto
next
  case (Suc n)
  then show ?case
    by (auto simp: nth_js_set)
qed

text \<open>Filling a fresh array of \<open>n\<close> bytes, index by index.\<close>

lemma fill_loop:
  "for_loop 0 n (\<lambda>i a. js_set a i (g i)) (new_Uint8Array n) = map (\<lambda>i. to_u8 (g i)) [0..<n]"
proof (rule nth_equalityI)
  show "length (for_loop 0 n (\<lambda>i a. js_set a i (g i)) (new_Uint8Array n)) =
        length (map (\<lambda>i. to_u8 (g i)) [0..<n])"
    by (simp add: for_loop_fold new_Uint8Array_def)
next
  fix j
  assume "j < length (for_loop 0 n (\<lambda>i a. js_set a i (g i)) (new_Uint8Array n))"
  then have "j < n"
    by (simp add: for_loop_fold new_Uint8Array_def)
  then show "for_loop 0 n (\<lambda>i a. js_set a i (g i)) (new_Uint8Array n) ! j =
        map (\<lambda>i. to_u8 (g i)) [0..<n] ! j"
    using nth_fold_js_set [of j "new_Uint8Array n" 0 g n]
    by (simp add: for_loop_fold new_Uint8Array_def)
qed

lemma getCartridgeHeader_loop_for_loop:
  "getCartridgeHeader_loop m i h =
     for_loop i (Suc headerLength)
       (\<lambda>i h. js_set h i (js_get m (CARTRIDGE_ROM + 0x0134 + i))) h"
proof (induction m i h rule: getCartridgeHeader_loop.induct)
  case (1 m i h)
  show ?case
  proof (cases "i \<le> headerLength")
    case True
    with 1 show ?thesis
      by (subst getCartridgeHeader_loop.simps, subst for_loop.simps) simp
  next
    case False
    then show ?thesis
      by (subst getCartridgeHeader_loop.simps, subst for_loop.simps) simp
  qed
qed

text \<open>
  The last of the 28 iterations writes index 27 of an array of 27 bytes, which a typed
  array ignores: the loop leaves what 27 iterations leave.
\<close>

lemma getCartridgeHeader_loop_27:
  "getCartridgeHeader_loop m 0 (new_Uint8Array headerLength) =
     map (\<lambda>i. to_u8 (js_get m (CARTRIDGE_ROM + 0x0134 + i))) [0..<headerLength]"
proof -
  let ?g = "\<lambda>i. js_get m (CARTRIDGE_ROM + 0x0134 + i)"
  have "getCartridgeHeader_loop m 0 (new_Uint8Array headerLength) =
        js_set (fold (\<lambda>i a. js_set a i (?g i)) [0..<headerLength] (new_Uint8Array headerLength))
          headerLength (?g headerLength)"
    by (simp add: getCartridgeHeader_loop_for_loop for_loop_fold)
  also have "\<dots> = fold (\<lambda>i a. js_set a i (?g i)) [0..<headerLength] (new_Uint8Array headerLength)"
    using length_fold_js_set [of "\<lambda>i. i" ?g "[0..<headerLength]" "new_Uint8Array headerLength"]
    by (simp add: js_set_def new_Uint8Array_def)
  also have "\<dots> = map (\<lambda>i. to_u8 (?g i)) [0..<headerLength]"
    using fill_loop [of headerLength ?g] by (simp add: for_loop_fold)
  finally show ?thesis .
qed

lemma resolveRamSize_unat:
  "resolveRamSize (Some t) =
     (if unat t = 0 then None
      else if 1 \<le> unat t \<and> unat t \<le> 3 then Some 32768
      else if 5 \<le> unat t \<and> unat t \<le> 6 then Some 2048
      else if 15 \<le> unat t \<and> unat t \<le> 19 then Some 32768
      else if 25 \<le> unat t \<and> unat t \<le> 30 then Some 131072
      else None)"
proof -
  have z: "t = 0 \<longleftrightarrow> unat t = 0"
    by (simp add: unat_eq_0)
  show ?thesis
    unfolding resolveRamSize_def option.case z word_le_nat_alt
    by simp
qed

section \<open>The save-state codec\<close>

lemma length_write_loop [simp]:
  "length (for_loop 0 n (\<lambda>i m. js_set m (i + d) (g i)) m) = length m"
  by (simp add: for_loop_fold)

lemma nth_write_loop:
  "j < length m \<Longrightarrow>
   for_loop 0 n (\<lambda>i m. js_set m (i + d) (g i)) m ! j =
     (if d \<le> j \<and> j < d + n then to_u8 (g (j - d)) else m ! j)"
  using nth_fold_js_set [of j m d g n] by (simp add: for_loop_fold add.commute)

lemma getCartridgeRam_Some:
  "getCartridgeRam (Some m) =
     map_option (\<lambda>n. map (\<lambda>i. to_u8 (js_get m (i + CARTRIDGE_RAM))) [0..<n])
       (resolveRamSize (js_get m (CARTRIDGE_ROM + 0x0147)))"
  by (simp add: getCartridgeRam_def fill_loop add.commute split: option.splits)

lemma getSaveState_Some:
  "getSaveState now (Some m) =
     Inr (\<lparr>wasmBoyMemory = SchemaMemory, date = Some now, name = None, isAuto = None\<rparr>,
          \<lparr>wasmBoyInternalState =
             map (\<lambda>i. to_u8 (js_get m (i + WASMBOY_INTERNAL_STATE_LOCATION)))
               [0..<WASMBOY_INTERNAL_STATE_SIZE],
           gameBoyMemory =
             map (\<lambda>i. to_u8 (js_get m (i + GAMEBOY_MEMORY_LOCATION))) [0..<GAMEBOY_MEMORY_SIZE],
           cartridgeRam = getCartridgeRam (Some m)\<rparr>)"
  by (simp add: getSaveState_def fill_loop)

text \<open>Writing a region copy back where it was read leaves the memory as it is.\<close>

lemma write_back_same:
  "for_loop 0 n
     (\<lambda>i x. js_set x (i + d) (js_get (map (\<lambda>i. to_u8 (js_get m (i + d))) [0..<n]) i)) m = m"
proof (rule nth_equalityI)
  show "length (for_loop 0 n
     (\<lambda>i x. js_set x (i + d) (js_get (map (\<lambda>i. to_u8 (js_get m (i + d))) [0..<n]) i)) m) = length m"
    by simp
next
  fix j
  assume "j < length (for_loop 0 n
     (\<lambda>i x. js_set x (i + d) (js_get (map (\<lambda>i. to_u8 (js_get m (i + d))) [0..<n]) i)) m)"
  then have j: "j < length m" by simp
  show "for_loop 0 n
     (\<lambda>i x. js_set x (i + d) (js_get (map (\<lambda>i. to_u8 (js_get m (i + d))) [0..<n]) i)) m ! j = m ! j"
    using j by (auto simp: nth_write_loop js_get_def to_u8_def)
qed

lemma fst_loadSaveState [simp]: "fst (loadSaveState schema m s) = True"
  by (simp add: loadSaveState_def Let_def)

lemma length_loadSaveState [simp]: "length (snd (loadSaveState schema m s)) = length m"
  by (simp add: loadSaveState_def Let_def split: option.splits)

text \<open>Every byte of the memory that \<open>loadSaveState\<close> leaves.\<close>

lemma nth_loadSaveState:
  assumes "j < length m"
  shows "snd (loadSaveState schema m s) ! j =
     (let stored = deref schema (wasmBoyMemory s) in
      if (case cartridgeRam stored of None \<Rightarrow> False
          | Some ram \<Rightarrow> CARTRIDGE_RAM \<le> j \<and> j < CARTRIDGE_RAM + length ram)
      then to_u8 (js_get (the (cartridgeRam stored)) (j - CARTRIDGE_RAM))
      else if GAMEBOY_MEMORY_LOCATION \<le> j \<and> j < GAMEBOY_MEMORY_LOCATION + GAMEBOY_MEMORY_SIZE
      then to_u8 (js_get (gameBoyMemory stored) (j - GAMEBOY_MEMORY_LOCATION))
      else if j < WASMBOY_INTERNAL_STATE_SIZE
      then to_u8 (js_get (wasmBoyInternalState stored) j)
      else m ! j)"
  using assms
  by (simp add: loadSaveState_def Let_def nth_write_loop split: option.splits)
    (simp add: WASMBOY_INTERNAL_STATE_LOCATION_def WASMBOY_INTERNAL_STATE_SIZE_def
      GAMEBOY_MEMORY_LOCATION_def GAMEBOY_MEMORY_SIZE_def CARTRIDGE_RAM_def)

section \<open>Loading the ROM\<close>

lemma length_fold_js_set_if [simp]:
  "length (fold (\<lambda>i a. if c i then js_set a (f i) (g i) else a) ks a) = length a"
  by (induction ks arbitrary: a) simp_all

lemma nth_fold_js_set_if:
  "j < length a \<Longrightarrow>
   fold (\<lambda>i a. if c i then js_set a (d + i) (g i) else a) [0..<n] a ! j =
     (if d \<le> j \<and> j < d + n \<and> c (j - d) then to_u8 (g (j - d)) else a ! j)"
proof (induction n)
  case 0
  then show ?case by auto
next
  case (Suc n)
  then show ?case
    by (auto simp: nth_js_set)
qed

lemma nth_rom_loop:
  assumes "j < length m"
  shows "for_loop 0 (length gameBytes)
           (\<lambda>i m. if truthy (js_get gameBytes i)
                   then js_set m (CARTRIDGE_ROM + i) (js_get gameBytes i) else m) m ! j =
         (if CARTRIDGE_ROM \<le> j \<and> j < CARTRIDGE_ROM + length gameBytes \<and>
             gameBytes ! (j - CARTRIDGE_ROM) \<noteq> 0
          then gameBytes ! (j - CARTRIDGE_ROM) else m ! j)"
  using assms nth_fold_js_set_if [of j m "\<lambda>i. truthy (js_get gameBytes i)" CARTRIDGE_ROM
      "\<lambda>i. js_get gameBytes i" "length gameBytes"]
  by (auto simp: for_loop_fold truthy_def js_get_def to_u8_def)

lemma length_rom_loop [simp]:
  "length (for_loop 0 n
           (\<lambda>i m. if truthy (js_get gameBytes i)
                   then js_set m (CARTRIDGE_ROM + i) (js_get gameBytes i) else m) m) = length m"
  by (simp add: for_loop_fold)

section \<open>The default save state\<close>

lemma defaultSaveStateIndex_loop_done:
  "i < 0 \<Longrightarrow> defaultSaveStateIndex_loop states idx i = Inr idx"
  by (subst defaultSaveStateIndex_loop.simps) simp

lemma defaultSaveStateIndex_loop_result:
  "i < int (length states) \<Longrightarrow>
   \<exists>k. defaultSaveStateIndex_loop states idx i = Inr k \<and>
     ((k = idx \<and> (\<forall>j. 0 \<le> j \<and> j \<le> i \<longrightarrow> isAuto (states ! nat j) = Some True)) \<or>
      (0 \<le> k \<and> k \<le> i \<and> isAuto (states ! nat k) \<noteq> Some True \<and>
       (\<forall>j. k < j \<and> j \<le> i \<longrightarrow> isAuto (states ! nat j) = Some True)))"
proof (induction states idx i rule: defaultSaveStateIndex_loop.induct)
  case (1 states idx i)
  show ?case
  proof (cases "i \<ge> 0")
    case False
    then have "defaultSaveStateIndex_loop states idx i = Inr idx"
      by (simp add: defaultSaveStateIndex_loop_done)
    with False show ?thesis
      by auto
  next
    case nonneg: True
    with "1.prems" have inside: "nat i < length states" by simp
    show ?thesis
    proof (cases "isAuto (states ! nat i) \<noteq> Some True")
      case True
      with nonneg inside have "defaultSaveStateIndex_loop states idx i = Inr i"
        by (subst defaultSaveStateIndex_loop.simps) (simp add: defaultSaveStateIndex_loop_done)
      with True nonneg show ?thesis
        by auto
    next
      case False
      with nonneg inside have step: "defaultSaveStateIndex_loop states idx i =
          defaultSaveStateIndex_loop states idx (i - 1)"
        by (subst defaultSaveStateIndex_loop.simps) simp
      from "1.IH"(2) [OF nonneg inside] False "1.prems"
      obtain k where k: "defaultSaveStateIndex_loop states idx (i - 1) = Inr k"
        and sel: "(k = idx \<and> (\<forall>j. 0 \<le> j \<and> j \<le> i - 1 \<longrightarrow> isAuto (states ! nat j) = Some True)) \<or>
          (0 \<le> k \<and> k \<le> i - 1 \<and> isAuto (states ! nat k) \<noteq> Some True \<and>
           (\<forall>j. k < j \<and> j \<le> i - 1 \<longrightarrow> isAuto (states ! nat j) = Some True))"
        by auto
      have auto_i: "isAuto (states ! nat i) = Some True"
        using False by simp
      have upto: "isAuto (states ! nat j) = Some True"
        if "j \<le> i" and below: "j \<le> i - 1 \<Longrightarrow> isAuto (states ! nat j) = Some True" for j
      proof (cases "j = i")
        case True
        with auto_i show ?thesis by simp
      next
        case False
        with that(1) have "j \<le> i - 1" by arith
        then show ?thesis by (rule below)
      qed
      from sel have "(k = idx \<and> (\<forall>j. 0 \<le> j \<and> j \<le> i \<longrightarrow> isAuto (states ! nat j) = Some True)) \<or>
          (0 \<le> k \<and> k \<le> i \<and> isAuto (states ! nat k) \<noteq> Some True \<and>
           (\<forall>j. k < j \<and> j \<le> i \<longrightarrow> isAuto (states ! nat j) = Some True))"
      proof
        assume a: "k = idx \<and> (\<forall>j. 0 \<le> j \<and> j \<le> i - 1 \<longrightarrow> isAuto (states ! nat j) = Some True)"
        then have "\<forall>j. 0 \<le> j \<and> j \<le> i \<longrightarrow> isAuto (states ! nat j) = Some True"
          using upto by blast
        with a show ?thesis by blast
      next
        assume b: "0 \<le> k \<and> k \<le> i - 1 \<and> isAuto (states ! nat k) \<noteq> Some True \<and>
           (\<forall>j. k < j \<and> j \<le> i - 1 \<longrightarrow> isAuto (states ! nat j) = Some True)"
        then have "\<forall>j. k < j \<and> j \<le> i \<longrightarrow> isAuto (states ! nat j) = Some True"
          using upto by blast
        moreover from b have "k \<le> i" by arith
        ultimately show ?thesis using b by blast
      qed
      with step k show ?thesis
        by simp
    qed
  qed
qed

lemma resolveSaveStateIndex_default:
  assumes "states \<noteq> []"
  shows "\<exists>k<length states. resolveSaveStateIndex states None = Inr (int k) \<and>
     ((isAuto (states ! k) \<noteq> Some True \<and>
       (\<forall>j<length states. k < j \<longrightarrow> isAuto (states ! j) = Some True)) \<or>
      (k = length states - 1 \<and> (\<forall>j<length states. isAuto (states ! j) = Some True)))"
proof -
  let ?n = "int (length states) - 1"
  from assms have pos: "0 < length states" by simp
  have start: "resolveSaveStateIndex states None = defaultSaveStateIndex_loop states ?n ?n"
    by (simp add: resolveSaveStateIndex_def)
  have "?n < int (length states)" by simp
  from defaultSaveStateIndex_loop_result [OF this, of ?n]
  obtain k' where both: "defaultSaveStateIndex_loop states ?n ?n = Inr k' \<and>
     ((k' = ?n \<and> (\<forall>j. 0 \<le> j \<and> j \<le> ?n \<longrightarrow> isAuto (states ! nat j) = Some True)) \<or>
      (0 \<le> k' \<and> k' \<le> ?n \<and> isAuto (states ! nat k') \<noteq> Some True \<and>
       (\<forall>j. k' < j \<and> j \<le> ?n \<longrightarrow> isAuto (states ! nat j) = Some True)))" ..
  then have run: "resolveSaveStateIndex states None = Inr k'"
    using start by simp
  from both have sel: "(k' = ?n \<and> (\<forall>j. 0 \<le> j \<and> j \<le> ?n \<longrightarrow> isAuto (states ! nat j) = Some True)) \<or>
      (0 \<le> k' \<and> k' \<le> ?n \<and> isAuto (states ! nat k') \<noteq> Some True \<and>
       (\<forall>j. k' < j \<and> j \<le> ?n \<longrightarrow> isAuto (states ! nat j) = Some True))"
    by (rule conjunct2)
  from sel show ?thesis
  proof
    assume a: "k' = ?n \<and> (\<forall>j. 0 \<le> j \<and> j \<le> ?n \<longrightarrow> isAuto (states ! nat j) = Some True)"
    have allauto: "\<forall>j<length states. isAuto (states ! j) = Some True"
    proof (intro allI impI)
      fix j assume "j < length states"
      then have "0 \<le> int j \<and> int j \<le> ?n" by simp
      with a have "isAuto (states ! nat (int j)) = Some True" by blast
      then show "isAuto (states ! j) = Some True" by simp
    qed
    from assms obtain x xs where "states = x # xs" by (cases states) simp_all
    then have eq: "?n = int (length states - 1)" by simp
    from a have kn: "k' = ?n" by (rule conjunct1)
    from run have r: "resolveSaveStateIndex states None = Inr (int (length states - 1))"
      unfolding kn eq .
    from pos have lt: "length states - 1 < length states" by simp
    show ?thesis
    proof (intro exI conjI)
      show "length states - 1 < length states" by (rule lt)
      show "resolveSaveStateIndex states None = Inr (int (length states - 1))" by (rule r)
      show "(isAuto (states ! (length states - 1)) \<noteq> Some True \<and>
         (\<forall>j<length states. length states - 1 < j \<longrightarrow> isAuto (states ! j) = Some True)) \<or>
        (length states - 1 = length states - 1 \<and> (\<forall>j<length states. isAuto (states ! j) = Some True))"
        using allauto by simp
    qed
  next
    assume b: "0 \<le> k' \<and> k' \<le> ?n \<and> isAuto (states ! nat k') \<noteq> Some True \<and>
       (\<forall>j. k' < j \<and> j \<le> ?n \<longrightarrow> isAuto (states ! nat j) = Some True)"
    have after: "\<forall>j<length states. nat k' < j \<longrightarrow> isAuto (states ! j) = Some True"
    proof (intro allI impI)
      fix j assume "j < length states" and "nat k' < j"
      with b have "k' < int j \<and> int j \<le> ?n" by simp
      with b have "isAuto (states ! nat (int j)) = Some True" by blast
      then show "isAuto (states ! j) = Some True" by simp
    qed
    from b have lt: "nat k' < length states" by (simp add: nat_less_iff)
    from b have "int (nat k') = k'" by simp
    with run have r: "resolveSaveStateIndex states None = Inr (int (nat k'))" by simp
    from b have manual: "isAuto (states ! nat k') \<noteq> Some True" by simp
    show ?thesis
    proof (intro exI conjI)
      show "nat k' < length states" by (rule lt)
      show "resolveSaveStateIndex states None = Inr (int (nat k'))" by (rule r)
      show "(isAuto (states ! nat k') \<noteq> Some True \<and>
         (\<forall>j<length states. nat k' < j \<longrightarrow> isAuto (states ! j) = Some True)) \<or>
        (nat k' = length states - 1 \<and> (\<forall>j<length states. isAuto (states ! j) = Some True))"
        using manual after by simp
    qed
  qed
qed

lemma isAuto_stored_state [simp]: "isAuto (stored_state t a) = a"
  by (simp add: stored_state_def)

text \<open>The index 0 is falsy: it resolves as an omitted index does.\<close>

lemma resolveSaveStateIndex_zero:
  "resolveSaveStateIndex states (Some 0) = resolveSaveStateIndex states None"
  by (simp add: resolveSaveStateIndex_def)

section \<open>Recovery at startup\<close>

lemma localStorage_saveCartridgeRam:
  "localStorage (snd (saveCartridgeRam kv this h r)) = localStorage this"
  by (simp add: saveCartridgeRam_def Let_def split: sum.splits prod.splits)

lemma localStorage_saveState:
  "localStorage (snd (saveState kv now this h s)) = localStorage this"
  by (simp add: saveState_def Let_def split: sum.splits prod.splits option.splits)

text \<open>A rejected \<open>saveCartridgeRam\<close> with a header and a RAM passed in has changed nothing.\<close>

lemma saveCartridgeRam_rejected_unchanged:
  "saveCartridgeRam kv this (Some h) (Some r) = (Rejected e, w) \<Longrightarrow> w = this"
  by (auto simp: saveCartridgeRam_def Let_def settle_def split: sum.splits)

section \<open>Claims\<close>

text \<open>
  C3. The claim: the cartridge header is the 28 bytes of the linear memory at offsets
  \<open>CartridgeRom + 0x0134\<close> through \<open>CartridgeRom + 0x014F\<close> inclusive. The code
  allocates \<open>0x014F - 0x0134 = 27\<close> bytes, so for every bound memory the header is the
  27 bytes at \<open>CartridgeRom + 0x0134\<close> up to and excluding \<open>CartridgeRom + 0x014F\<close>
  (an index outside the memory reads as 0).
\<close>

theorem getCartridgeHeader_27_bytes:
  "getCartridgeHeader (Some m) =
     Some (map (\<lambda>a. to_u8 (js_get m a)) [CARTRIDGE_ROM + 0x0134 ..< CARTRIDGE_ROM + 0x014F])
   \<and> length [CARTRIDGE_ROM + 0x0134 ..< CARTRIDGE_ROM + 0x014F] = 27"
proof -
  have upt: "[CARTRIDGE_ROM + 0x0134 ..< CARTRIDGE_ROM + 0x014F] =
        map (\<lambda>i. CARTRIDGE_ROM + 0x0134 + i) [0..<headerLength]"
    by (simp add: map_add_upt headerLength_def CARTRIDGE_ROM_def add.commute)
  have "getCartridgeHeader (Some m) =
        Some (map (\<lambda>i. to_u8 (js_get m (CARTRIDGE_ROM + 0x0134 + i))) [0..<headerLength])"
    by (simp add: getCartridgeHeader_def getCartridgeHeader_loop_27)
  also have "map (\<lambda>i. to_u8 (js_get m (CARTRIDGE_ROM + 0x0134 + i))) [0..<headerLength] =
        map (\<lambda>a. to_u8 (js_get m a)) [CARTRIDGE_ROM + 0x0134 ..< CARTRIDGE_ROM + 0x014F]"
    unfolding upt by (simp add: comp_def)
  finally show ?thesis
    by simp
qed

text \<open>
  C9. RAM-size resolution is a function of the cartridge type byte alone and follows the
  table: 0x00 none, 0x01-0x03 32768, 0x05-0x06 2048, 0x0F-0x13 32768, 0x19-0x1E 131072,
  any other byte none; and for a bound memory \<open>getCartridgeRam\<close> returns \<open>false\<close>
  exactly when the size resolved from the byte at \<open>CartridgeRom + 0x0147\<close> is none.
\<close>

theorem resolveRamSize_table:
  "resolveRamSize (Some t) =
     (if unat t \<in> {0x01..0x03} \<union> {0x0F..0x13} then Some 32768
      else if unat t \<in> {0x05..0x06} then Some 2048
      else if unat t \<in> {0x19..0x1E} then Some 131072
      else None)
   \<and> (getCartridgeRam (Some m) = None \<longleftrightarrow>
        resolveRamSize (js_get m (CARTRIDGE_ROM + 0x0147)) = None)"
proof -
  have "resolveRamSize (Some t) =
     (if unat t \<in> {0x01..0x03} \<union> {0x0F..0x13} then Some 32768
      else if unat t \<in> {0x05..0x06} then Some 2048
      else if unat t \<in> {0x19..0x1E} then Some 131072
      else None)"
    unfolding resolveRamSize_unat by simp
  moreover have "getCartridgeRam (Some m) = None \<longleftrightarrow>
        resolveRamSize (js_get m (CARTRIDGE_ROM + 0x0147)) = None"
    by (simp add: getCartridgeRam_def split: option.splits)
  ultimately show ?thesis by simp
qed

text \<open>
  C2. For every linear memory, whatever its cartridge type byte, encoding it with
  \<open>getSaveState\<close> succeeds and decoding the result with \<open>loadSaveState\<close> returns
  \<open>true\<close> and leaves the whole memory, and so the InternalState, EmulatedMemory and
  CartridgeRam regions, byte for byte as it was.
\<close>

theorem save_state_round_trip:
  "\<exists>s schema. getSaveState now (Some m) = Inr (s, schema) \<and> loadSaveState schema m s = (True, m)"
  by (simp add: getSaveState_Some loadSaveState_def deref_def write_back_same
      getCartridgeRam_Some split: option.splits)

text \<open>
  C8. The claim: a save state returned by \<open>getSaveState\<close> is never changed by a later
  encode, and two consecutive encodes of different memories hold their own contents. In
  the code both save states refer to the schema's one nested object: after the second
  encode the first state's regions are those of the second memory.
\<close>

theorem getSaveState_shares_wasmBoyMemory:
  "\<exists>s1 h1 s2 h2.
     getSaveState t1 (Some m1) = Inr (s1, h1) \<and>
     getSaveState t2 (Some m2) = Inr (s2, h2) \<and>
     wasmBoyInternalState (deref h1 (wasmBoyMemory s1)) =
       map (\<lambda>i. to_u8 (js_get m1 i)) [0..<0x400] \<and>
     wasmBoyInternalState (deref h2 (wasmBoyMemory s1)) =
       map (\<lambda>i. to_u8 (js_get m2 i)) [0..<0x400] \<and>
     deref h2 (wasmBoyMemory s1) = deref h2 (wasmBoyMemory s2)"
  by (simp add: getSaveState_Some deref_def WASMBOY_INTERNAL_STATE_LOCATION_def
      WASMBOY_INTERNAL_STATE_SIZE_def)

text \<open>
  C4, as amended. \<open>loadSaveState\<close> never fails: for every save state it returns
  \<open>true\<close> and a memory of the same length. Of a stored InternalState or
  EmulatedMemory region it writes the declared number of bytes, zero where the stored
  region is shorter and nothing of what is beyond the declared size where it is longer;
  the stored cartridge RAM is written at its stored length.
\<close>

theorem loadSaveState_never_fails:
  "fst (loadSaveState schema m s) = True \<and>
   length (snd (loadSaveState schema m s)) = length m \<and>
   (\<forall>j<length m. j < WASMBOY_INTERNAL_STATE_SIZE \<longrightarrow>
      snd (loadSaveState schema m s) ! j =
        (if j < length (wasmBoyInternalState (deref schema (wasmBoyMemory s)))
         then wasmBoyInternalState (deref schema (wasmBoyMemory s)) ! j else 0)) \<and>
   (\<forall>j<length m. GAMEBOY_MEMORY_LOCATION \<le> j \<and> j < GAMEBOY_MEMORY_LOCATION + GAMEBOY_MEMORY_SIZE \<longrightarrow>
      snd (loadSaveState schema m s) ! j =
        (if j - GAMEBOY_MEMORY_LOCATION < length (gameBoyMemory (deref schema (wasmBoyMemory s)))
         then gameBoyMemory (deref schema (wasmBoyMemory s)) ! (j - GAMEBOY_MEMORY_LOCATION)
         else 0)) \<and>
   (\<forall>ram. cartridgeRam (deref schema (wasmBoyMemory s)) = Some ram \<longrightarrow>
      (\<forall>j<length m. CARTRIDGE_RAM \<le> j \<and> j < CARTRIDGE_RAM + length ram \<longrightarrow>
         snd (loadSaveState schema m s) ! j = ram ! (j - CARTRIDGE_RAM)))"
proof -
  have "\<forall>j<length m. j < WASMBOY_INTERNAL_STATE_SIZE \<longrightarrow>
      snd (loadSaveState schema m s) ! j =
        (if j < length (wasmBoyInternalState (deref schema (wasmBoyMemory s)))
         then wasmBoyInternalState (deref schema (wasmBoyMemory s)) ! j else 0)"
    by (auto simp: nth_loadSaveState Let_def js_get_def to_u8_def
        WASMBOY_INTERNAL_STATE_SIZE_def GAMEBOY_MEMORY_LOCATION_def CARTRIDGE_RAM_def
        split: option.splits)
  moreover have "\<forall>j<length m. GAMEBOY_MEMORY_LOCATION \<le> j \<and> j < GAMEBOY_MEMORY_LOCATION + GAMEBOY_MEMORY_SIZE \<longrightarrow>
      snd (loadSaveState schema m s) ! j =
        (if j - GAMEBOY_MEMORY_LOCATION < length (gameBoyMemory (deref schema (wasmBoyMemory s)))
         then gameBoyMemory (deref schema (wasmBoyMemory s)) ! (j - GAMEBOY_MEMORY_LOCATION)
         else 0)"
    by (auto simp: nth_loadSaveState Let_def js_get_def to_u8_def
        GAMEBOY_MEMORY_SIZE_def GAMEBOY_MEMORY_LOCATION_def CARTRIDGE_RAM_def
        split: option.splits)
  moreover have "\<forall>ram. cartridgeRam (deref schema (wasmBoyMemory s)) = Some ram \<longrightarrow>
      (\<forall>j<length m. CARTRIDGE_RAM \<le> j \<and> j < CARTRIDGE_RAM + length ram \<longrightarrow>
         snd (loadSaveState schema m s) ! j = ram ! (j - CARTRIDGE_RAM))"
    by (auto simp: nth_loadSaveState Let_def js_get_def to_u8_def)
  ultimately show ?thesis
    by simp
qed

theorem loadSaveState_never_fails_witness:
  "snd (loadSaveState WASMBOY_SAVE_STATE_SCHEMA filled_memory short_state) ! 1 = 2 \<and>
   snd (loadSaveState WASMBOY_SAVE_STATE_SCHEMA filled_memory short_state) ! 2 = 0"
  using loadSaveState_never_fails [of WASMBOY_SAVE_STATE_SCHEMA filled_memory short_state]
  by (simp add: filled_memory_def short_state_def deref_def WASMBOY_INTERNAL_STATE_SIZE_def)

text \<open>
  C4 as stated fails: the stored internal state of \<open>short_state\<close> has 2 bytes, not
  0x400, yet \<open>loadSaveState\<close> returns \<open>true\<close> and has padded: byte 2 of the
  memory, 0xFF before, is 0.
\<close>

theorem loadSaveState_pads_counterexample:
  "length (wasmBoyInternalState (deref WASMBOY_SAVE_STATE_SCHEMA (wasmBoyMemory short_state)))
     \<noteq> WASMBOY_INTERNAL_STATE_SIZE \<and>
   fst (loadSaveState WASMBOY_SAVE_STATE_SCHEMA filled_memory short_state) = True \<and>
   js_get filled_memory 2 = Some 0xFF \<and>
   js_get (snd (loadSaveState WASMBOY_SAVE_STATE_SCHEMA filled_memory short_state)) 2 = Some 0"
proof -
  have "(2::nat) < length filled_memory"
    by (simp add: filled_memory_def)
  then have "snd (loadSaveState WASMBOY_SAVE_STATE_SCHEMA filled_memory short_state) ! 2 = 0"
    by (simp add: nth_loadSaveState short_state_def deref_def js_get_def to_u8_def
        CARTRIDGE_RAM_def GAMEBOY_MEMORY_LOCATION_def WASMBOY_INTERNAL_STATE_SIZE_def)
  then show ?thesis
    by (simp add: js_get_def filled_memory_def short_state_def deref_def
        WASMBOY_INTERNAL_STATE_SIZE_def)
qed

text \<open>
  C6, as amended. Writing a blob into the EmulatedMemory region never fails:
  \<open>loadSaveState\<close> returns \<open>true\<close> whatever the blob's length. It writes the
  region's 0x8000 bytes from the start of the blob (a longer blob is cut there, a shorter
  one is followed by zeros); no byte beyond the three regions it writes is modified; and
  when the blob has the declared size and the memory holds the region, reading the region
  back with \<open>getSaveState\<close> gives the blob.
\<close>

theorem loadSaveState_region_write:
  "fst (loadSaveState schema m s) = True \<and>
   (\<forall>j<length m. GAMEBOY_MEMORY_LOCATION \<le> j \<and> j < GAMEBOY_MEMORY_LOCATION + GAMEBOY_MEMORY_SIZE \<longrightarrow>
      snd (loadSaveState schema m s) ! j =
        to_u8 (js_get (gameBoyMemory (deref schema (wasmBoyMemory s))) (j - GAMEBOY_MEMORY_LOCATION))) \<and>
   (\<forall>j<length m.
      CARTRIDGE_RAM + (case cartridgeRam (deref schema (wasmBoyMemory s)) of
                         None \<Rightarrow> 0 | Some ram \<Rightarrow> length ram) \<le> j \<longrightarrow>
      snd (loadSaveState schema m s) ! j = m ! j) \<and>
   (length (gameBoyMemory (deref schema (wasmBoyMemory s))) = GAMEBOY_MEMORY_SIZE \<and>
    GAMEBOY_MEMORY_LOCATION + GAMEBOY_MEMORY_SIZE \<le> length m \<longrightarrow>
      (\<exists>s' schema'.
         getSaveState now (Some (snd (loadSaveState schema m s))) = Inr (s', schema') \<and>
         gameBoyMemory (deref schema' (wasmBoyMemory s')) =
           gameBoyMemory (deref schema (wasmBoyMemory s))))"
proof -
  let ?gb = "gameBoyMemory (deref schema (wasmBoyMemory s))"
  let ?m' = "snd (loadSaveState schema m s)"
  have written: "\<forall>j<length m. GAMEBOY_MEMORY_LOCATION \<le> j \<and> j < GAMEBOY_MEMORY_LOCATION + GAMEBOY_MEMORY_SIZE \<longrightarrow>
      ?m' ! j = to_u8 (js_get ?gb (j - GAMEBOY_MEMORY_LOCATION))"
    by (auto simp: nth_loadSaveState Let_def
        GAMEBOY_MEMORY_SIZE_def GAMEBOY_MEMORY_LOCATION_def CARTRIDGE_RAM_def
        split: option.splits)
  have frame: "\<forall>j<length m.
      CARTRIDGE_RAM + (case cartridgeRam (deref schema (wasmBoyMemory s)) of
                         None \<Rightarrow> 0 | Some ram \<Rightarrow> length ram) \<le> j \<longrightarrow>
      ?m' ! j = m ! j"
    by (auto simp: nth_loadSaveState Let_def
        GAMEBOY_MEMORY_SIZE_def GAMEBOY_MEMORY_LOCATION_def CARTRIDGE_RAM_def
        WASMBOY_INTERNAL_STATE_SIZE_def
        split: option.splits)
  have readback: "map (\<lambda>i. to_u8 (js_get ?m' (i + GAMEBOY_MEMORY_LOCATION))) [0..<GAMEBOY_MEMORY_SIZE] = ?gb"
    if len: "length ?gb = GAMEBOY_MEMORY_SIZE" and big: "GAMEBOY_MEMORY_LOCATION + GAMEBOY_MEMORY_SIZE \<le> length m"
  proof (rule nth_equalityI)
    show "length (map (\<lambda>i. to_u8 (js_get ?m' (i + GAMEBOY_MEMORY_LOCATION))) [0..<GAMEBOY_MEMORY_SIZE]) = length ?gb"
      using len by simp
  next
    fix i
    assume "i < length (map (\<lambda>i. to_u8 (js_get ?m' (i + GAMEBOY_MEMORY_LOCATION))) [0..<GAMEBOY_MEMORY_SIZE])"
    then have i: "i < GAMEBOY_MEMORY_SIZE" by simp
    with big have "i + GAMEBOY_MEMORY_LOCATION < length m" by simp
    with i written have "?m' ! (i + GAMEBOY_MEMORY_LOCATION) = to_u8 (js_get ?gb i)"
      by simp
    with i len big show "map (\<lambda>i. to_u8 (js_get ?m' (i + GAMEBOY_MEMORY_LOCATION))) [0..<GAMEBOY_MEMORY_SIZE] ! i = ?gb ! i"
      by (simp add: js_get_def to_u8_def)
  qed
  show ?thesis
    using written frame readback
    by (simp add: getSaveState_Some deref_def)
qed

theorem loadSaveState_region_write_witness:
  "snd (loadSaveState WASMBOY_SAVE_STATE_SCHEMA blank_memory sized_state) ! 0x0400 = 0xAA \<and>
   snd (loadSaveState WASMBOY_SAVE_STATE_SCHEMA blank_memory sized_state) ! 0x8400 = 0 \<and>
   (\<exists>s' schema'.
      getSaveState 0 (Some (snd (loadSaveState WASMBOY_SAVE_STATE_SCHEMA blank_memory sized_state))) =
        Inr (s', schema') \<and>
      gameBoyMemory (deref schema' (wasmBoyMemory s')) = replicate 0x8000 0xAA)"
  using loadSaveState_region_write [of WASMBOY_SAVE_STATE_SCHEMA blank_memory sized_state 0]
  by (simp add: blank_memory_def sized_state_def deref_def js_get_def to_u8_def
      GAMEBOY_MEMORY_LOCATION_def GAMEBOY_MEMORY_SIZE_def CARTRIDGE_RAM_def)

text \<open>
  C6 as stated fails: the Game Boy memory of \<open>oversized_state\<close> has 40000 bytes, more
  than the region's 32768, and \<open>loadSaveState\<close> returns \<open>true\<close>: the last byte of
  the region holds the blob's byte and the byte after the region is untouched.
\<close>

theorem loadSaveState_truncates_counterexample:
  "length (gameBoyMemory (deref WASMBOY_SAVE_STATE_SCHEMA (wasmBoyMemory oversized_state))) = 40000 \<and>
   fst (loadSaveState WASMBOY_SAVE_STATE_SCHEMA blank_memory oversized_state) = True \<and>
   js_get (snd (loadSaveState WASMBOY_SAVE_STATE_SCHEMA blank_memory oversized_state)) 0x83FF = Some 0xAA \<and>
   js_get (snd (loadSaveState WASMBOY_SAVE_STATE_SCHEMA blank_memory oversized_state)) 0x8400 = Some 0"
proof -
  have "(0x83FF::nat) < length blank_memory" and "(0x8400::nat) < length blank_memory"
    by (simp_all add: blank_memory_def)
  then have "snd (loadSaveState WASMBOY_SAVE_STATE_SCHEMA blank_memory oversized_state) ! 0x83FF = 0xAA"
    and "snd (loadSaveState WASMBOY_SAVE_STATE_SCHEMA blank_memory oversized_state) ! 0x8400 = 0"
    by (simp_all add: nth_loadSaveState oversized_state_def deref_def js_get_def to_u8_def
        CARTRIDGE_RAM_def GAMEBOY_MEMORY_LOCATION_def GAMEBOY_MEMORY_SIZE_def
        WASMBOY_INTERNAL_STATE_SIZE_def blank_memory_def)
  then show ?thesis
    by (simp add: js_get_def blank_memory_def oversized_state_def deref_def)
qed

text \<open>
  C7, as amended. \<open>loadCartridgeRom\<close> writes the non-zero ROM bytes only. With a
  bound memory and instance, and a reset that leaves the bytes from \<open>CartridgeRom\<close>
  on as they are, for every index \<open>i < bytes.length\<close> inside the memory the byte at
  \<open>CartridgeRom + i\<close> is \<open>bytes[i]\<close> when that is not 0 and is the byte that was
  there before when \<open>bytes[i]\<close> is 0.
\<close>

theorem loadCartridgeRom_writes_nonzero_bytes:
  assumes "wasmByteMemory this = Some m" and "wasmInstance this = Some w"
    and "\<forall>x j. CARTRIDGE_ROM \<le> j \<longrightarrow> js_get (exports_initialize w x) j = js_get x j"
    and "i < length gameBytes" and "CARTRIDGE_ROM + i < length m"
  shows "\<exists>m'. loadCartridgeRom this gameBytes =
           (None, this\<lparr>wasmByteMemory := Some m', loadedCartridgeMemoryState_ROM := True\<rparr>) \<and>
         js_get m' (CARTRIDGE_ROM + i) =
           Some (if gameBytes ! i \<noteq> 0 then gameBytes ! i else m ! (CARTRIDGE_ROM + i))"
proof -
  let ?m1 = "for_loop 0 (length gameBytes)
           (\<lambda>i m. if truthy (js_get gameBytes i)
                   then js_set m (CARTRIDGE_ROM + i) (js_get gameBytes i) else m) m"
  have run: "loadCartridgeRom this gameBytes =
      (None, this\<lparr>wasmByteMemory := Some (exports_initialize w ?m1),
                  loadedCartridgeMemoryState_ROM := True\<rparr>)"
    using assms(1,2) by (simp add: loadCartridgeRom_def)
  have len: "length ?m1 = length m"
    by simp
  have nth: "?m1 ! (CARTRIDGE_ROM + i) =
      (if gameBytes ! i \<noteq> 0 then gameBytes ! i else m ! (CARTRIDGE_ROM + i))"
    using assms(4,5) nth_rom_loop [of "CARTRIDGE_ROM + i" m gameBytes]
    by simp
  have "js_get ?m1 (CARTRIDGE_ROM + i) =
      Some (if gameBytes ! i \<noteq> 0 then gameBytes ! i else m ! (CARTRIDGE_ROM + i))"
    unfolding js_get_def [of ?m1] len nth using assms(5) by simp
  with assms(3) have "js_get (exports_initialize w ?m1) (CARTRIDGE_ROM + i) =
      Some (if gameBytes ! i \<noteq> 0 then gameBytes ! i else m ! (CARTRIDGE_ROM + i))"
    by simp
  with run show ?thesis
    by blast
qed

theorem loadCartridgeRom_writes_nonzero_bytes_witness:
  "\<exists>m'. loadCartridgeRom (bound_world filled_memory (\<lambda>key. None)) [0x31, 0x00] =
           (None, (bound_world filled_memory (\<lambda>key. None))
                    \<lparr>wasmByteMemory := Some m', loadedCartridgeMemoryState_ROM := True\<rparr>) \<and>
         js_get m' (CARTRIDGE_ROM + 1) = Some 0xFF"
  using loadCartridgeRom_writes_nonzero_bytes
    [of "bound_world filled_memory (\<lambda>key. None)" filled_memory idle_instance 1 "[0x31, 0x00]"]
  by (simp add: bound_world_def idle_instance_def filled_memory_def CARTRIDGE_ROM_def)

text \<open>
  C7 as stated fails: in a memory of 0xFF bytes, loading the one-byte ROM \<open>[0]\<close>
  leaves 0xFF at \<open>CartridgeRom + 0\<close>.
\<close>

theorem loadCartridgeRom_skips_zero_counterexample:
  "\<exists>m'. loadCartridgeRom (bound_world filled_memory (\<lambda>key. None)) [0x00] =
           (None, (bound_world filled_memory (\<lambda>key. None))
                    \<lparr>wasmByteMemory := Some m', loadedCartridgeMemoryState_ROM := True\<rparr>) \<and>
         js_get m' (CARTRIDGE_ROM + 0) = Some 0xFF \<and>
         js_get m' (CARTRIDGE_ROM + 0) \<noteq> Some ([0x00] ! 0)"
proof -
  have "for_loop 0 (length [0x00 :: u8])
           (\<lambda>i m. if truthy (js_get [0x00] i)
                   then js_set m (CARTRIDGE_ROM + i) (js_get [0x00] i) else m) filled_memory
        = filled_memory"
    by (simp add: for_loop_fold truthy_def js_get_def)
  then show ?thesis
    by (simp add: loadCartridgeRom_def bound_world_def idle_instance_def js_get_def
        filled_memory_def CARTRIDGE_ROM_def)
qed

text \<open>
  C5. With a bound memory and instance and a record whose \<open>saveStates\<close> is not
  empty, \<open>loadState\<close> with the index omitted resolves and loads the entry at an index
  \<open>k\<close> that is the last entry whose \<open>isAuto\<close> is not true, or the last entry of
  all when \<open>isAuto\<close> is true for every entry. The witness is the spec's example: of
  auto at 1, manual at 2, auto at 3, the manual entry is loaded.
\<close>

theorem loadState_default_selection:
  assumes "wasmByteMemory this = Some m" and "wasmInstance this = Some w"
    and "idb_get kv (idb this) (getCartridgeHeader (Some m)) = Inr (Some cartridgeObject)"
    and "saveStates cartridgeObject = Some states" and "states \<noteq> []"
  shows "\<exists>k<length states.
     loadState kv this None =
       (Resolved,
        this\<lparr>wasmByteMemory :=
          Some (exports_loadState w (snd (loadSaveState (schema_wasmBoyMemory this) m (states ! k))))\<rparr>) \<and>
     ((isAuto (states ! k) \<noteq> Some True \<and>
       (\<forall>j<length states. k < j \<longrightarrow> isAuto (states ! j) = Some True)) \<or>
      (k = length states - 1 \<and> (\<forall>j<length states. isAuto (states ! j) = Some True)))"
proof -
  from resolveSaveStateIndex_default [OF assms(5)]
  obtain k where k: "k < length states"
    and idx: "resolveSaveStateIndex states None = Inr (int k)"
    and sel: "(isAuto (states ! k) \<noteq> Some True \<and>
       (\<forall>j<length states. k < j \<longrightarrow> isAuto (states ! j) = Some True)) \<or>
      (k = length states - 1 \<and> (\<forall>j<length states. isAuto (states ! j) = Some True))"
    by blast
  have run: "loadState kv this None =
       (Resolved,
        this\<lparr>wasmByteMemory :=
          Some (exports_loadState w (snd (loadSaveState (schema_wasmBoyMemory this) m (states ! k))))\<rparr>)"
    using assms(1-4) k idx
    by (simp add: loadState_def getCartridgeHeader_def settle_def saveStates_at_def)
  show ?thesis
  proof (intro exI conjI)
    show "k < length states" by (rule k)
    show "loadState kv this None =
       (Resolved,
        this\<lparr>wasmByteMemory :=
          Some (exports_loadState w (snd (loadSaveState (schema_wasmBoyMemory this) m (states ! k))))\<rparr>)"
      by (rule run)
    show "(isAuto (states ! k) \<noteq> Some True \<and>
       (\<forall>j<length states. k < j \<longrightarrow> isAuto (states ! j) = Some True)) \<or>
      (k = length states - 1 \<and> (\<forall>j<length states. isAuto (states ! j) = Some True))"
      by (rule sel)
  qed
qed

theorem loadState_default_selection_witness:
  "loadState map_store
     (bound_world blank_memory
        (store_of [stored_state 1 (Some True), stored_state 2 None, stored_state 3 (Some True)]))
     None =
   (Resolved,
    (bound_world blank_memory
        (store_of [stored_state 1 (Some True), stored_state 2 None, stored_state 3 (Some True)]))
      \<lparr>wasmByteMemory :=
         Some (snd (loadSaveState WASMBOY_SAVE_STATE_SCHEMA blank_memory (stored_state 2 None)))\<rparr>)"
proof -
  let ?states = "[stored_state 1 (Some True), stored_state 2 None, stored_state 3 (Some True)]"
  let ?w = "bound_world blank_memory (store_of ?states)"
  have "wasmByteMemory ?w = Some blank_memory" and "wasmInstance ?w = Some idle_instance"
    and "idb_get map_store (idb ?w) (getCartridgeHeader (Some blank_memory)) =
         Inr (Some \<lparr>object_cartridgeRam = None, saveStates = Some ?states\<rparr>)"
    and "saveStates \<lparr>object_cartridgeRam = None, saveStates = Some ?states\<rparr> = Some ?states"
    and "?states \<noteq> []"
    by (simp_all add: bound_world_def map_store_def store_of_def)
  from loadState_default_selection [OF this]
  obtain k where all: "k < length ?states \<and>
     loadState map_store ?w None =
       (Resolved,
        ?w\<lparr>wasmByteMemory :=
          Some (exports_loadState idle_instance
                  (snd (loadSaveState (schema_wasmBoyMemory ?w) blank_memory (?states ! k))))\<rparr>) \<and>
     ((isAuto (?states ! k) \<noteq> Some True \<and>
       (\<forall>j<length ?states. k < j \<longrightarrow> isAuto (?states ! j) = Some True)) \<or>
      (k = length ?states - 1 \<and> (\<forall>j<length ?states. isAuto (?states ! j) = Some True)))" ..
  from all have k: "k < length ?states"
    by (rule conjunct1)
  from all [THEN conjunct2] have run: "loadState map_store ?w None =
       (Resolved,
        ?w\<lparr>wasmByteMemory :=
          Some (exports_loadState idle_instance
                  (snd (loadSaveState (schema_wasmBoyMemory ?w) blank_memory (?states ! k))))\<rparr>)"
    by (rule conjunct1)
  from all [THEN conjunct2] have sel: "(isAuto (?states ! k) \<noteq> Some True \<and>
       (\<forall>j<length ?states. k < j \<longrightarrow> isAuto (?states ! j) = Some True)) \<or>
      (k = length ?states - 1 \<and> (\<forall>j<length ?states. isAuto (?states ! j) = Some True))"
    by (rule conjunct2)
  from k have "k = 0 \<or> k = 1 \<or> k = 2"
    by auto
  moreover have "isAuto (?states ! 1) \<noteq> Some True"
    by simp
  ultimately have k1: "k = 1"
    using sel by auto
  have e: "exports_loadState idle_instance x = x" for x
    by (simp add: idle_instance_def)
  have n: "?states ! 1 = stored_state 2 None"
    by simp
  have sch: "schema_wasmBoyMemory ?w = WASMBOY_SAVE_STATE_SCHEMA"
    by (simp add: bound_world_def)
  from run show ?thesis
    unfolding k1 e n sch .
qed

text \<open>
  C10. \<open>loadState\<close> with the index 0 does not load the entry at position 0: the
  index is tested by \<open>!saveStateIndex\<close>, which holds for 0, so the call does what the
  call with the index omitted does. With a bound memory and instance and a record whose
  \<open>saveStates\<close> is not empty it resolves and loads the entry chosen by the default:
  the last entry whose \<open>isAuto\<close> is not true, or the last entry of all when
  \<open>isAuto\<close> is true for every entry. The witness: of manual at 1, manual at 2, auto
  at 3, the index 0 loads the manual entry at 2, neither position 0 nor the last entry.
\<close>

theorem loadState_zero_applies_default:
  assumes "wasmByteMemory this = Some m" and "wasmInstance this = Some w"
    and "idb_get kv (idb this) (getCartridgeHeader (Some m)) = Inr (Some cartridgeObject)"
    and "saveStates cartridgeObject = Some states" and "states \<noteq> []"
  shows "loadState kv this (Some 0) = loadState kv this None \<and>
     (\<exists>k<length states.
        loadState kv this (Some 0) =
          (Resolved,
           this\<lparr>wasmByteMemory :=
             Some (exports_loadState w
                     (snd (loadSaveState (schema_wasmBoyMemory this) m (states ! k))))\<rparr>) \<and>
        ((isAuto (states ! k) \<noteq> Some True \<and>
          (\<forall>j<length states. k < j \<longrightarrow> isAuto (states ! j) = Some True)) \<or>
         (k = length states - 1 \<and> (\<forall>j<length states. isAuto (states ! j) = Some True))))"
proof (rule conjI)
  show "loadState kv this (Some 0) = loadState kv this None"
    unfolding loadState_def resolveSaveStateIndex_zero by (rule refl)
next
  from resolveSaveStateIndex_default [OF assms(5)]
  obtain k where all: "k < length states \<and>
      resolveSaveStateIndex states None = Inr (int k) \<and>
      ((isAuto (states ! k) \<noteq> Some True \<and>
        (\<forall>j<length states. k < j \<longrightarrow> isAuto (states ! j) = Some True)) \<or>
       (k = length states - 1 \<and> (\<forall>j<length states. isAuto (states ! j) = Some True)))" ..
  from all have k: "k < length states"
    by (rule conjunct1)
  from all [THEN conjunct2] have "resolveSaveStateIndex states None = Inr (int k)"
    by (rule conjunct1)
  then have idx: "resolveSaveStateIndex states (Some 0) = Inr (int k)"
    by (simp only: resolveSaveStateIndex_zero)
  from all [THEN conjunct2] have sel: "(isAuto (states ! k) \<noteq> Some True \<and>
        (\<forall>j<length states. k < j \<longrightarrow> isAuto (states ! j) = Some True)) \<or>
       (k = length states - 1 \<and> (\<forall>j<length states. isAuto (states ! j) = Some True))"
    by (rule conjunct2)
  have run: "loadState kv this (Some 0) =
       (Resolved,
        this\<lparr>wasmByteMemory :=
          Some (exports_loadState w (snd (loadSaveState (schema_wasmBoyMemory this) m (states ! k))))\<rparr>)"
    using assms(1-4) k idx
    by (simp add: loadState_def getCartridgeHeader_def settle_def saveStates_at_def)
  show "\<exists>k<length states.
        loadState kv this (Some 0) =
          (Resolved,
           this\<lparr>wasmByteMemory :=
             Some (exports_loadState w
                     (snd (loadSaveState (schema_wasmBoyMemory this) m (states ! k))))\<rparr>) \<and>
        ((isAuto (states ! k) \<noteq> Some True \<and>
          (\<forall>j<length states. k < j \<longrightarrow> isAuto (states ! j) = Some True)) \<or>
         (k = length states - 1 \<and> (\<forall>j<length states. isAuto (states ! j) = Some True)))"
  proof (intro exI conjI)
    show "k < length states" by (rule k)
    show "loadState kv this (Some 0) =
       (Resolved,
        this\<lparr>wasmByteMemory :=
          Some (exports_loadState w (snd (loadSaveState (schema_wasmBoyMemory this) m (states ! k))))\<rparr>)"
      by (rule run)
    show "(isAuto (states ! k) \<noteq> Some True \<and>
        (\<forall>j<length states. k < j \<longrightarrow> isAuto (states ! j) = Some True)) \<or>
       (k = length states - 1 \<and> (\<forall>j<length states. isAuto (states ! j) = Some True))"
      by (rule sel)
  qed
qed

theorem loadState_zero_applies_default_witness:
  "loadState map_store
     (bound_world blank_memory
        (store_of [stored_state 1 None, stored_state 2 None, stored_state 3 (Some True)]))
     (Some 0) =
   (Resolved,
    (bound_world blank_memory
        (store_of [stored_state 1 None, stored_state 2 None, stored_state 3 (Some True)]))
      \<lparr>wasmByteMemory :=
         Some (snd (loadSaveState WASMBOY_SAVE_STATE_SCHEMA blank_memory (stored_state 2 None)))\<rparr>) \<and>
   snd (loadSaveState WASMBOY_SAVE_STATE_SCHEMA blank_memory (stored_state 2 None)) ! 0 = 2 \<and>
   snd (loadSaveState WASMBOY_SAVE_STATE_SCHEMA blank_memory (stored_state 1 None)) ! 0 = 1 \<and>
   snd (loadSaveState WASMBOY_SAVE_STATE_SCHEMA blank_memory (stored_state 3 (Some True))) ! 0 = 3"
proof -
  let ?states = "[stored_state 1 None, stored_state 2 None, stored_state 3 (Some True)]"
  let ?w = "bound_world blank_memory (store_of ?states)"
  have "wasmByteMemory ?w = Some blank_memory" and "wasmInstance ?w = Some idle_instance"
    and "idb_get map_store (idb ?w) (getCartridgeHeader (Some blank_memory)) =
         Inr (Some \<lparr>object_cartridgeRam = None, saveStates = Some ?states\<rparr>)"
    and "saveStates \<lparr>object_cartridgeRam = None, saveStates = Some ?states\<rparr> = Some ?states"
    and "?states \<noteq> []"
    by (simp_all add: bound_world_def map_store_def store_of_def)
  from loadState_zero_applies_default [OF this, THEN conjunct2]
  obtain k where all: "k < length ?states \<and>
     loadState map_store ?w (Some 0) =
       (Resolved,
        ?w\<lparr>wasmByteMemory :=
          Some (exports_loadState idle_instance
                  (snd (loadSaveState (schema_wasmBoyMemory ?w) blank_memory (?states ! k))))\<rparr>) \<and>
     ((isAuto (?states ! k) \<noteq> Some True \<and>
       (\<forall>j<length ?states. k < j \<longrightarrow> isAuto (?states ! j) = Some True)) \<or>
      (k = length ?states - 1 \<and> (\<forall>j<length ?states. isAuto (?states ! j) = Some True)))" ..
  from all have k: "k < length ?states"
    by (rule conjunct1)
  from all [THEN conjunct2] have run: "loadState map_store ?w (Some 0) =
       (Resolved,
        ?w\<lparr>wasmByteMemory :=
          Some (exports_loadState idle_instance
                  (snd (loadSaveState (schema_wasmBoyMemory ?w) blank_memory (?states ! k))))\<rparr>)"
    by (rule conjunct1)
  from all [THEN conjunct2] have sel: "(isAuto (?states ! k) \<noteq> Some True \<and>
       (\<forall>j<length ?states. k < j \<longrightarrow> isAuto (?states ! j) = Some True)) \<or>
      (k = length ?states - 1 \<and> (\<forall>j<length ?states. isAuto (?states ! j) = Some True))"
    by (rule conjunct2)
  from k have range: "k = 0 \<or> k = 1 \<or> k = 2"
    by auto
  have manual1: "isAuto (?states ! 1) \<noteq> Some True"
    by simp
  have auto2: "isAuto (?states ! 2) = Some True"
    by simp
  have not0: "k \<noteq> 0"
  proof
    assume "k = 0"
    with sel manual1 have "\<forall>j<length ?states. 0 < j \<longrightarrow> isAuto (?states ! j) = Some True"
      by auto
    from this [rule_format, of 1] have "isAuto (?states ! 1) = Some True"
      by simp
    with manual1 show False by simp
  qed
  have not2: "k \<noteq> 2"
  proof
    assume "k = 2"
    with sel auto2 have "\<forall>j<length ?states. isAuto (?states ! j) = Some True"
      by auto
    from this [rule_format, of 1] have "isAuto (?states ! 1) = Some True"
      by simp
    with manual1 show False by simp
  qed
  from range not0 not2 have k1: "k = 1"
    by blast
  have e: "exports_loadState idle_instance x = x" for x
    by (simp add: idle_instance_def)
  have n: "?states ! 1 = stored_state 2 None"
    by simp
  have sch: "schema_wasmBoyMemory ?w = WASMBOY_SAVE_STATE_SCHEMA"
    by (simp add: bound_world_def)
  from run have loaded: "loadState map_store ?w (Some 0) =
     (Resolved,
      ?w\<lparr>wasmByteMemory :=
         Some (snd (loadSaveState WASMBOY_SAVE_STATE_SCHEMA blank_memory (stored_state 2 None)))\<rparr>)"
    unfolding k1 e n sch .
  have first: "(0::nat) < length blank_memory"
    by (simp add: blank_memory_def)
  have bytes: "snd (loadSaveState WASMBOY_SAVE_STATE_SCHEMA blank_memory (stored_state t a)) ! 0 = of_nat t"
    for t a
    using first
    by (simp add: nth_loadSaveState stored_state_def deref_def js_get_def to_u8_def
        CARTRIDGE_RAM_def GAMEBOY_MEMORY_LOCATION_def WASMBOY_INTERNAL_STATE_SIZE_def)
  from bytes [of 2 None] bytes [of 1 None] bytes [of 3 "Some True"]
  have "snd (loadSaveState WASMBOY_SAVE_STATE_SCHEMA blank_memory (stored_state 2 None)) ! 0 = 2 \<and>
   snd (loadSaveState WASMBOY_SAVE_STATE_SCHEMA blank_memory (stored_state 1 None)) ! 0 = 1 \<and>
   snd (loadSaveState WASMBOY_SAVE_STATE_SCHEMA blank_memory (stored_state 3 (Some True))) ! 0 = 3"
    by simp
  with loaded show ?thesis
    by (rule conjI)
qed

text \<open>
  C1, as amended. \<open>initialize\<close> removes the \<open>localStorage\<close> entry as soon as it
  has parsed it, before the replay: whatever the store answers, the entry is absent
  afterwards. The replay is \<open>saveCartridgeRam\<close> on the service without the entry; if
  that is rejected the replay ends with its rejection, nothing stored and the entry gone,
  and if it resolves the replay is what \<open>saveState\<close> then does with the snapshot's
  header and save state.
\<close>

theorem initialize_clears_entry_before_replay:
  "localStorage (snd (initialize kv now this instance memory)) = None \<and>
   (\<forall>u e w. localStorage this = Some u \<and>
      saveCartridgeRam kv
        (this\<lparr>wasmInstance := instance, wasmByteMemory := memory, localStorage := None\<rparr>)
        (Some (unload_header u)) (Some (unload_cartridgeRam u)) = (Rejected e, w) \<longrightarrow>
      w = this\<lparr>wasmInstance := instance, wasmByteMemory := memory, localStorage := None\<rparr> \<and>
      initialize kv now this instance memory = (Rejected e, w)) \<and>
   (\<forall>u w. localStorage this = Some u \<and>
      saveCartridgeRam kv
        (this\<lparr>wasmInstance := instance, wasmByteMemory := memory, localStorage := None\<rparr>)
        (Some (unload_header u)) (Some (unload_cartridgeRam u)) = (Resolved, w) \<longrightarrow>
      initialize kv now this instance memory =
        saveState kv now w (Some (unload_header u))
          (map_option
             (\<lambda>s. s\<lparr>wasmBoyMemory :=
                     OwnMemory (retype (deref (schema_wasmBoyMemory this) (wasmBoyMemory s)))\<rparr>)
             (unload_saveState u)))"
proof (intro conjI allI impI)
  show "localStorage (snd (initialize kv now this instance memory)) = None"
  proof (cases "localStorage this")
    case None
    then show ?thesis
      by (simp add: initialize_def)
  next
    case (Some u)
    let ?cleared = "this\<lparr>wasmInstance := instance, wasmByteMemory := memory, localStorage := None\<rparr>"
    obtain p w where first: "saveCartridgeRam kv ?cleared
        (Some (unload_header u)) (Some (unload_cartridgeRam u)) = (p, w)"
      by (cases "saveCartridgeRam kv ?cleared (Some (unload_header u)) (Some (unload_cartridgeRam u))")
    have "localStorage w = None"
      using localStorage_saveCartridgeRam
        [of kv ?cleared "Some (unload_header u)" "Some (unload_cartridgeRam u)"] first
      by simp
    with Some first show ?thesis
      by (cases p) (simp_all add: initialize_def localStorage_saveState)
  qed
next
  fix u e w
  assume "localStorage this = Some u \<and>
      saveCartridgeRam kv
        (this\<lparr>wasmInstance := instance, wasmByteMemory := memory, localStorage := None\<rparr>)
        (Some (unload_header u)) (Some (unload_cartridgeRam u)) = (Rejected e, w)"
  then show "initialize kv now this instance memory = (Rejected e, w)"
    by (simp add: initialize_def)
next
  fix u e w
  assume "localStorage this = Some u \<and>
      saveCartridgeRam kv
        (this\<lparr>wasmInstance := instance, wasmByteMemory := memory, localStorage := None\<rparr>)
        (Some (unload_header u)) (Some (unload_cartridgeRam u)) = (Rejected e, w)"
  then show "w = this\<lparr>wasmInstance := instance, wasmByteMemory := memory, localStorage := None\<rparr>"
    using saveCartridgeRam_rejected_unchanged by blast
next
  fix u w
  assume "localStorage this = Some u \<and>
      saveCartridgeRam kv
        (this\<lparr>wasmInstance := instance, wasmByteMemory := memory, localStorage := None\<rparr>)
        (Some (unload_header u)) (Some (unload_cartridgeRam u)) = (Resolved, w)"
  then show "initialize kv now this instance memory =
        saveState kv now w (Some (unload_header u))
          (map_option
             (\<lambda>s. s\<lparr>wasmBoyMemory :=
                     OwnMemory (retype (deref (schema_wasmBoyMemory this) (wasmBoyMemory s)))\<rparr>)
             (unload_saveState u))"
    by (simp add: initialize_def)
qed

theorem initialize_clears_entry_before_replay_witness:
  "initialize map_store 7 (constructed_world (Some snapshot) (\<lambda>key. None))
     (Some idle_instance) (Some blank_memory) =
   (Resolved,
    \<lparr>wasmInstance = Some idle_instance, wasmByteMemory = Some blank_memory,
     loadedCartridgeMemoryState_ROM = False, loadedCartridgeMemoryState_RAM = False,
     schema_wasmBoyMemory = WASMBOY_SAVE_STATE_SCHEMA, localStorage = None,
     idb = (\<lambda>key. None)
             (Some [0x50, 0x4F] :=
                Some \<lparr>object_cartridgeRam = Some [1, 2, 3],
                      saveStates = Some [snapshot_state]\<rparr>)\<rparr>)"
proof -
  let ?w0 = "constructed_world (Some snapshot) (\<lambda>key. None)"
  let ?w1 = "\<lparr>wasmInstance = Some idle_instance, wasmByteMemory = Some blank_memory,
     loadedCartridgeMemoryState_ROM = False, loadedCartridgeMemoryState_RAM = False,
     schema_wasmBoyMemory = WASMBOY_SAVE_STATE_SCHEMA, localStorage = None,
     idb = (\<lambda>key. None)
             (Some [0x50, 0x4F] :=
                Some \<lparr>object_cartridgeRam = Some [1, 2, 3], saveStates = None\<rparr>)\<rparr>"
  have pending: "localStorage ?w0 = Some snapshot"
    by (simp add: constructed_world_def)
  have first: "saveCartridgeRam map_store
      (?w0\<lparr>wasmInstance := Some idle_instance, wasmByteMemory := Some blank_memory,
              localStorage := None\<rparr>)
      (Some (unload_header snapshot)) (Some (unload_cartridgeRam snapshot)) = (Resolved, ?w1)"
    by (simp add: saveCartridgeRam_def constructed_world_def map_store_def snapshot_def
        settle_def structuredClone_def)
  have state: "map_option
       (\<lambda>s. s\<lparr>wasmBoyMemory :=
               OwnMemory (retype (deref (schema_wasmBoyMemory ?w0) (wasmBoyMemory s)))\<rparr>)
       (unload_saveState snapshot) = Some snapshot_state"
    by (simp add: snapshot_def snapshot_state_def retype_def deref_def)
  from initialize_clears_entry_before_replay
    [of map_store 7 ?w0 "Some idle_instance" "Some blank_memory"] pending first
  have "initialize map_store 7 ?w0 (Some idle_instance) (Some blank_memory) =
        saveState map_store 7 ?w1 (Some (unload_header snapshot))
          (map_option
             (\<lambda>s. s\<lparr>wasmBoyMemory :=
                     OwnMemory (retype (deref (schema_wasmBoyMemory ?w0) (wasmBoyMemory s)))\<rparr>)
             (unload_saveState snapshot))"
    by blast
  also have "\<dots> = saveState map_store 7 ?w1 (Some [0x50, 0x4F]) (Some snapshot_state)"
    unfolding state by (simp add: snapshot_def)
  also have "\<dots> = (Resolved, ?w1\<lparr>idb := (\<lambda>key. None)
             (Some [0x50, 0x4F] :=
                Some \<lparr>object_cartridgeRam = Some [1, 2, 3],
                      saveStates = Some [snapshot_state]\<rparr>)\<rparr>)"
    by (simp add: saveState_def map_store_def idle_instance_def settle_def structuredClone_def
        snapshot_state_def deref_def)
  finally show ?thesis
    by simp
qed

text \<open>
  C1 as stated fails: with a snapshot pending and a store that rejects every request,
  the replay is rejected and the entry is gone from \<open>localStorage\<close>.
\<close>

theorem initialize_loses_entry_counterexample:
  "localStorage (constructed_world (Some snapshot) (\<lambda>key. None)) = Some snapshot \<and>
   fst (initialize unavailable_store 7 (constructed_world (Some snapshot) (\<lambda>key. None))
          (Some idle_instance) (Some blank_memory)) = Rejected StoreError \<and>
   localStorage
     (snd (initialize unavailable_store 7 (constructed_world (Some snapshot) (\<lambda>key. None))
          (Some idle_instance) (Some blank_memory))) = None"
  by (simp add: initialize_def constructed_world_def saveCartridgeRam_def unavailable_store_def
      settle_def)

end
